theory Spec2Isabelle
  imports Main
begin

section \<open>Python values: exceptions and string formatting\<close>

text \<open>
  The exceptions that occur in \<^verbatim>\<open>api/main.py\<close> and \<^verbatim>\<open>api/libs/apikey_manager.py\<close>.
  Every one of them derives from Python's \<^verbatim>\<open>Exception\<close>, so a clause
  \<^verbatim>\<open>except Exception\<close> catches each constructor of this type, \<open>HTTPException\<close> included.
  \<open>RequestValidationError\<close> is what FastAPI raises when a request body violates the
  constraints of its pydantic model; it is answered with status 422.
\<close>

datatype exn =
    HTTPException int string
  | ValueError string
  | AttributeError string
  | ConnectionError string
  | TimeoutError string
  | ResponseError string
  | RequestValidationError string
  | Exception string

text \<open>Decimal formatting of integers, as an f-string does it.\<close>

function str_nat :: "nat \<Rightarrow> string" where
  "str_nat n =
     (if n < 10 then [''0123456789'' ! n]
      else str_nat (n div 10) @ [''0123456789'' ! (n mod 10)])"
  by pat_completeness auto
termination
  by (relation "measure id") auto

declare str_nat.simps [simp del]

definition str_int :: "int \<Rightarrow> string" where
  "str_int i = (if i < 0 then CHR ''-'' # str_nat (nat (- i)) else str_nat (nat i))"

text \<open>
  \<^verbatim>\<open>str(e)\<close>: the message of the exception; for an \<open>HTTPException\<close> Starlette prints
  the status code and the detail.
\<close>

fun str_exn :: "exn \<Rightarrow> string" where
  "str_exn (HTTPException s d) = str_int s @ '': '' @ d"
| "str_exn (ValueError m) = m"
| "str_exn (AttributeError m) = m"
| "str_exn (ConnectionError m) = m"
| "str_exn (TimeoutError m) = m"
| "str_exn (ResponseError m) = m"
| "str_exn (RequestValidationError m) = m"
| "str_exn (Exception m) = m"

section \<open>The backend: Redis clients and the commands they send\<close>

text \<open>
  A \<open>handle\<close> is one \<^verbatim>\<open>redis.Redis\<close> client object: \<open>h_id\<close> is the identity of the
  object, \<open>h_db\<close> the \<^verbatim>\<open>db=\<close> argument it was constructed with. Host, port and password
  come from the configuration and are the same for every client.
\<close>

record handle =
  h_id :: nat
  h_db :: int

text \<open>The commands a client sends to the server; \<open>calls\<close> below logs every one, with
  its outcome.\<close>

datatype command =
    PING handle
  | EXISTS handle string
  | SET handle string string "int option"
  | GET handle string
  | TTL handle string
  | DEL handle string

text \<open>
  What the network does with one command: the server answers (\<open>Answer b\<close>, where \<open>b\<close>
  tells whether a reply to \<^verbatim>\<open>PING\<close> is the expected \<^verbatim>\<open>PONG\<close>; the replies to data
  commands are computed from \<open>store\<close>), or the client library raises.
\<close>

datatype outcome = Answer bool | Raises exn

text \<open>
  The state of the process and of its environment.
  \<^item> \<open>redis_connections\<close>: the module-level dictionary of \<^verbatim>\<open>main.py\<close>;
  \<^item> \<open>next_id\<close>: the identity the next constructed client object receives;
  \<^item> \<open>store\<close>: for each database index, the keys of the server with their value and
    remaining time to live (\<open>None\<close>: no expiry);
  \<^item> \<open>script\<close>: the outcomes of the coming commands, one per command, in order (when it
    is used up the server answers);
  \<^item> \<open>calls\<close>: the commands sent so far with their outcomes, oldest first;
  \<^item> \<open>api_keys\<close>: the \<^verbatim>\<open>key\<close> column of the table \<^verbatim>\<open>api_keys\<close>.
\<close>

record world =
  redis_connections :: "int \<rightharpoonup> handle"
  next_id :: nat
  store :: "int \<Rightarrow> string \<rightharpoonup> (string \<times> int option)"
  script :: "outcome list"
  calls :: "(command \<times> outcome) list"
  api_keys :: "string list"

definition round_trip :: "command \<Rightarrow> world \<Rightarrow> outcome \<times> world" where
  "round_trip c w =
     (case script w of
        [] \<Rightarrow> (Answer True, w\<lparr>calls := calls w @ [(c, Answer True)]\<rparr>)
      | x # xs \<Rightarrow> (x, w\<lparr>script := xs, calls := calls w @ [(c, x)]\<rparr>))"

text \<open>\<^verbatim>\<open>redis.Redis(host=..., port=..., password=..., decode_responses=True, db=db_index)\<close>:
  constructing the client sends nothing; the connection is opened by the first command.\<close>

definition Redis :: "int \<Rightarrow> world \<Rightarrow> handle \<times> world" where
  "Redis db w = (\<lparr>h_id = next_id w, h_db = db\<rparr>, w\<lparr>next_id := Suc (next_id w)\<rparr>)"

definition ping :: "handle \<Rightarrow> world \<Rightarrow> (exn + bool) \<times> world" where
  "ping r w =
     (case round_trip (PING r) w of
        (Raises e, w') \<Rightarrow> (Inl e, w')
      | (Answer b, w') \<Rightarrow> (Inr b, w'))"

text \<open>
  Modelled from the spec: the key-value server and the client library \<^verbatim>\<open>redis\<close> are not
  part of the repository; the spec describes the server as a capability,
  \<^verbatim>\<open>GET/SET/DEL/EXISTS/TTL\<close> by key within a numbered namespace. The five commands below
  follow that description and the replies the handlers test for. Each sends one command
  through \<open>round_trip\<close> and, when the server answers, reads or changes the database
  \<open>h_db r\<close> of the client. Time does not pass between two commands: a stored time to live
  stays what it was set to.

  \<^verbatim>\<open>r.exists(key)\<close>: the number of the given keys that exist.
\<close>

definition r_exists :: "handle \<Rightarrow> string \<Rightarrow> world \<Rightarrow> (exn + int) \<times> world" where
  "r_exists r k w =
     (case round_trip (EXISTS r k) w of
        (Raises e, w') \<Rightarrow> (Inl e, w')
      | (Answer b, w') \<Rightarrow> (Inr (if store w' (h_db r) k = None then 0 else 1), w'))"

text \<open>
  Modelled from the spec: \<^verbatim>\<open>r.set(key, value, ex=...)\<close>. The key holds the value
  afterwards, with the given expiry, and with none when \<^verbatim>\<open>ex\<close> is omitted (the spec:
  a TTL omitted clears any expiry); the server refuses an expiry that is not positive.
\<close>

definition r_set :: "handle \<Rightarrow> string \<Rightarrow> string \<Rightarrow> int option \<Rightarrow> world \<Rightarrow> (exn + bool) \<times> world" where
  "r_set r k v ex w =
     (case round_trip (SET r k v ex) w of
        (Raises e, w') \<Rightarrow> (Inl e, w')
      | (Answer b, w') \<Rightarrow>
          (case ex of
             None \<Rightarrow> (Inr True, w'\<lparr>store := (store w')(h_db r := (store w' (h_db r))(k \<mapsto> (v, None)))\<rparr>)
           | Some n \<Rightarrow>
               if n \<le> 0 then (Inl (ResponseError ''invalid expire time in set command''), w')
               else (Inr True, w'\<lparr>store := (store w')(h_db r := (store w' (h_db r))(k \<mapsto> (v, Some n)))\<rparr>)))"

definition r_get :: "handle \<Rightarrow> string \<Rightarrow> world \<Rightarrow> (exn + string option) \<times> world" where
  "r_get r k w =
     (case round_trip (GET r k) w of
        (Raises e, w') \<Rightarrow> (Inl e, w')
      | (Answer b, w') \<Rightarrow> (Inr (map_option fst (store w' (h_db r) k)), w'))"

text \<open>\<^verbatim>\<open>r.ttl(key)\<close>: \<open>-2\<close> when the key does not exist, \<open>-1\<close> when it has no expiry.\<close>

definition r_ttl :: "handle \<Rightarrow> string \<Rightarrow> world \<Rightarrow> (exn + int) \<times> world" where
  "r_ttl r k w =
     (case round_trip (TTL r k) w of
        (Raises e, w') \<Rightarrow> (Inl e, w')
      | (Answer b, w') \<Rightarrow>
          (Inr (case store w' (h_db r) k of
                  None \<Rightarrow> - 2
                | Some (v, None) \<Rightarrow> - 1
                | Some (v, Some n) \<Rightarrow> n), w'))"

definition r_delete :: "handle \<Rightarrow> string \<Rightarrow> world \<Rightarrow> (exn + int) \<times> world" where
  "r_delete r k w =
     (case round_trip (DEL r k) w of
        (Raises e, w') \<Rightarrow> (Inl e, w')
      | (Answer b, w') \<Rightarrow>
          (Inr (if store w' (h_db r) k = None then 0 else 1),
           w'\<lparr>store := (store w')(h_db r := (store w' (h_db r))(k := None))\<rparr>))"

section \<open>The connection cache: \<^verbatim>\<open>validate_db_index\<close> and \<^verbatim>\<open>get_redis_connection\<close>\<close>

definition validate_db_index :: "int \<Rightarrow> int \<Rightarrow> exn + unit" where
  "validate_db_index db_index max_dbs =
     (if db_index < 0 \<or> db_index > max_dbs
      then Inl (ValueError (''db_index must be an integer between 0 and '' @ str_int max_dbs @ ''.''))
      else Inr ())"

text \<open>The assignment \<^verbatim>\<open>redis_connections[db_index] = redis.Redis(...)\<close> followed by
  \<^verbatim>\<open>return redis_connections[db_index]\<close>.\<close>

definition install :: "int \<Rightarrow> world \<Rightarrow> (exn + handle) \<times> world" where
  "install db_index w =
     (case Redis db_index w of
        (r, w1) \<Rightarrow> (Inr r, w1\<lparr>redis_connections := (redis_connections w1)(db_index \<mapsto> r)\<rparr>))"

text \<open>The body of the \<^verbatim>\<open>try\<close> of one iteration. The \<^verbatim>\<open>or\<close> is evaluated left to right: a
  missing entry is never pinged.\<close>

definition connect_attempt :: "int \<Rightarrow> world \<Rightarrow> (exn + handle) \<times> world" where
  "connect_attempt db_index w =
     (case redis_connections w db_index of
        None \<Rightarrow> install db_index w
      | Some c \<Rightarrow>
          (case ping c w of
             (Inl e, w1) \<Rightarrow> (Inl e, w1)
           | (Inr alive, w1) \<Rightarrow> if \<not> alive then install db_index w1 else (Inr c, w1)))"

text \<open>\<^verbatim>\<open>except (redis.ConnectionError, redis.TimeoutError)\<close>\<close>

fun transient :: "exn \<Rightarrow> bool" where
  "transient (ConnectionError m) = True"
| "transient (TimeoutError m) = True"
| "transient e = False"

text \<open>
  The loop \<^verbatim>\<open>for attempt in range(max_retries)\<close>. An exception that the \<^verbatim>\<open>except\<close> clause
  does not name leaves the function; when the range is used up without a \<^verbatim>\<open>return\<close> or a
  \<^verbatim>\<open>raise\<close> (only for \<open>max_retries \<le> 0\<close>) the function returns \<^verbatim>\<open>None\<close>.
\<close>

definition retry_message :: "int \<Rightarrow> int \<Rightarrow> string" where
  "retry_message db_index max_retries =
     ''Failed to connect to Redis on db_index '' @ str_int db_index
       @ '' after '' @ str_int max_retries @ '' attempts.''"

function retry_loop :: "int \<Rightarrow> int \<Rightarrow> int \<Rightarrow> world \<Rightarrow> (exn + handle option) \<times> world" where
  "retry_loop db_index max_retries attempt w =
     (if attempt < max_retries then
        (case connect_attempt db_index w of
           (Inr r, w1) \<Rightarrow> (Inr (Some r), w1)
         | (Inl e, w1) \<Rightarrow>
             if transient e then
               (if attempt = max_retries - 1 then
                  (Inl (Exception (retry_message db_index max_retries)), w1)
                else retry_loop db_index max_retries (attempt + 1) w1)
             else (Inl e, w1))
      else (Inr None, w))"
  by pat_completeness auto
termination
  by (relation "measure (\<lambda>(d, m, a, w). nat (m - a))") auto

declare retry_loop.simps [simp del]

definition get_redis_connection :: "int \<Rightarrow> int \<Rightarrow> int \<Rightarrow> world \<Rightarrow> (exn + handle option) \<times> world" where
  "get_redis_connection db_index max_retries max_dbs w =
     (case validate_db_index db_index max_dbs of
        Inl e \<Rightarrow> (Inl e, w)
      | Inr u \<Rightarrow> retry_loop db_index max_retries 0 w)"

section \<open>The operation handlers\<close>

text \<open>The pydantic models. Field names carry a prefix (\<open>in_\<close>, \<open>out_\<close>, \<open>ttl_\<close>) because the
  three models share them.\<close>

record KeyValueInput =
  in_key :: string
  in_value :: string
  in_db_index :: int
  in_ttl :: "int option"

text \<open>The constraints of the model: \<^verbatim>\<open>db_index: Field(0, ge=0, le=15)\<close>,
  \<^verbatim>\<open>ttl: Field(None, ge=1)\<close>.\<close>

definition KeyValueInput_valid :: "KeyValueInput \<Rightarrow> bool" where
  "KeyValueInput_valid data =
     (0 \<le> in_db_index data \<and> in_db_index data \<le> 15 \<and>
      (case in_ttl data of None \<Rightarrow> True | Some t \<Rightarrow> 1 \<le> t))"

record KeyValueOutput =
  out_key :: string
  out_value :: "string option"
  out_ttl :: "int option"
  out_db_index :: int
  out_message :: string

datatype ttl_value = TTLInt int | TTLStr string

record TTLResponse =
  ttl_key :: string
  ttl_ttl :: ttl_value
  ttl_db_index :: int

text \<open>The truth value of \<^verbatim>\<open>data.ttl\<close> in \<^verbatim>\<open>if data.ttl:\<close>.\<close>

definition truthy :: "int option \<Rightarrow> bool" where
  "truthy t = (case t of None \<Rightarrow> False | Some n \<Rightarrow> n \<noteq> 0)"

text \<open>Calling a method on \<^verbatim>\<open>None\<close>.\<close>

definition none_attr :: "string \<Rightarrow> exn" where
  "none_attr a = AttributeError (''NoneType object has no attribute '' @ a)"

text \<open>The clause \<^verbatim>\<open>except Exception as e: raise HTTPException(status_code=500, detail=str(e))\<close>
  that closes every handler: it catches whatever the \<^verbatim>\<open>try\<close> block raised.\<close>

definition except_Exception :: "(exn + 'a) \<times> world \<Rightarrow> (exn + 'a) \<times> world" where
  "except_Exception res =
     (case res of
        (Inl e, w) \<Rightarrow> (Inl (HTTPException 500 (str_exn e)), w)
      | (Inr x, w) \<Rightarrow> (Inr x, w))"

text \<open>The two branches \<^verbatim>\<open>r.set(key, value, ex=data.ttl)\<close> and \<^verbatim>\<open>r.set(key, value)\<close>.\<close>

definition set_with_optional_ttl :: "handle \<Rightarrow> KeyValueInput \<Rightarrow> world \<Rightarrow> (exn + bool) \<times> world" where
  "set_with_optional_ttl r data w =
     (if truthy (in_ttl data) then r_set r (in_key data) (in_value data) (in_ttl data) w
      else r_set r (in_key data) (in_value data) None w)"

definition create_key_try :: "KeyValueInput \<Rightarrow> world \<Rightarrow> (exn + KeyValueOutput) \<times> world" where
  "create_key_try data w =
     (case get_redis_connection (in_db_index data) 3 15 w of
        (Inl e, w1) \<Rightarrow> (Inl e, w1)
      | (Inr None, w1) \<Rightarrow> (Inl (none_attr ''exists''), w1)
      | (Inr (Some r), w1) \<Rightarrow>
          (case r_exists r (in_key data) w1 of
             (Inl e, w2) \<Rightarrow> (Inl e, w2)
           | (Inr n, w2) \<Rightarrow>
               if n \<noteq> 0 then (Inl (HTTPException 400 ''Key already exists''), w2)
               else
                 (case set_with_optional_ttl r data w2 of
                    (Inl e, w3) \<Rightarrow> (Inl e, w3)
                  | (Inr ok, w3) \<Rightarrow>
                      (Inr \<lparr>out_key = in_key data, out_value = Some (in_value data),
                            out_ttl = in_ttl data, out_db_index = in_db_index data,
                            out_message = ''Key created successfully''\<rparr>, w3))))"

definition create_key :: "KeyValueInput \<Rightarrow> world \<Rightarrow> (exn + KeyValueOutput) \<times> world" where
  "create_key data w = except_Exception (create_key_try data w)"

definition update_key_try :: "KeyValueInput \<Rightarrow> world \<Rightarrow> (exn + KeyValueOutput) \<times> world" where
  "update_key_try data w =
     (case get_redis_connection (in_db_index data) 3 15 w of
        (Inl e, w1) \<Rightarrow> (Inl e, w1)
      | (Inr None, w1) \<Rightarrow> (Inl (none_attr ''exists''), w1)
      | (Inr (Some r), w1) \<Rightarrow>
          (case r_exists r (in_key data) w1 of
             (Inl e, w2) \<Rightarrow> (Inl e, w2)
           | (Inr n, w2) \<Rightarrow>
               if n = 0 then (Inl (HTTPException 404 ''Key not found''), w2)
               else
                 (case set_with_optional_ttl r data w2 of
                    (Inl e, w3) \<Rightarrow> (Inl e, w3)
                  | (Inr ok, w3) \<Rightarrow>
                      (Inr \<lparr>out_key = in_key data, out_value = Some (in_value data),
                            out_ttl = in_ttl data, out_db_index = in_db_index data,
                            out_message = ''Key updated successfully''\<rparr>, w3))))"

definition update_key :: "KeyValueInput \<Rightarrow> world \<Rightarrow> (exn + KeyValueOutput) \<times> world" where
  "update_key data w = except_Exception (update_key_try data w)"

definition get_key_try :: "string \<Rightarrow> int \<Rightarrow> world \<Rightarrow> (exn + KeyValueOutput) \<times> world" where
  "get_key_try k db_index w =
     (case get_redis_connection db_index 3 15 w of
        (Inl e, w1) \<Rightarrow> (Inl e, w1)
      | (Inr None, w1) \<Rightarrow> (Inl (none_attr ''exists''), w1)
      | (Inr (Some r), w1) \<Rightarrow>
          (case r_exists r k w1 of
             (Inl e, w2) \<Rightarrow> (Inl e, w2)
           | (Inr n, w2) \<Rightarrow>
               if n = 0 then (Inl (HTTPException 404 ''Key not found''), w2)
               else
                 (case r_get r k w2 of
                    (Inl e, w3) \<Rightarrow> (Inl e, w3)
                  | (Inr v, w3) \<Rightarrow>
                      (case r_ttl r k w3 of
                         (Inl e, w4) \<Rightarrow> (Inl e, w4)
                       | (Inr t, w4) \<Rightarrow>
                           (Inr \<lparr>out_key = k, out_value = v,
                                 out_ttl = (if t \<noteq> - 1 then Some t else None),
                                 out_db_index = db_index,
                                 out_message = ''Key retrieved successfully''\<rparr>, w4)))))"

definition get_key :: "string \<Rightarrow> int \<Rightarrow> world \<Rightarrow> (exn + KeyValueOutput) \<times> world" where
  "get_key k db_index w = except_Exception (get_key_try k db_index w)"

text \<open>The dictionary \<^verbatim>\<open>{"message": ..., "key": key}\<close> that \<^verbatim>\<open>delete_key\<close> returns.\<close>

record DeleteResponse =
  del_message :: string
  del_key :: string

definition delete_key_try :: "string \<Rightarrow> int \<Rightarrow> world \<Rightarrow> (exn + DeleteResponse) \<times> world" where
  "delete_key_try k db_index w =
     (case get_redis_connection db_index 3 15 w of
        (Inl e, w1) \<Rightarrow> (Inl e, w1)
      | (Inr None, w1) \<Rightarrow> (Inl (none_attr ''exists''), w1)
      | (Inr (Some r), w1) \<Rightarrow>
          (case r_exists r k w1 of
             (Inl e, w2) \<Rightarrow> (Inl e, w2)
           | (Inr n, w2) \<Rightarrow>
               if n = 0 then (Inl (HTTPException 404 ''Key not found''), w2)
               else
                 (case r_delete r k w2 of
                    (Inl e, w3) \<Rightarrow> (Inl e, w3)
                  | (Inr d, w3) \<Rightarrow>
                      (Inr \<lparr>del_message = ''Key deleted successfully'', del_key = k\<rparr>, w3))))"

definition delete_key :: "string \<Rightarrow> int \<Rightarrow> world \<Rightarrow> (exn + DeleteResponse) \<times> world" where
  "delete_key k db_index w = except_Exception (delete_key_try k db_index w)"

definition get_ttl_try :: "string \<Rightarrow> int \<Rightarrow> world \<Rightarrow> (exn + TTLResponse) \<times> world" where
  "get_ttl_try k db_index w =
     (case get_redis_connection db_index 3 15 w of
        (Inl e, w1) \<Rightarrow> (Inl e, w1)
      | (Inr None, w1) \<Rightarrow> (Inl (none_attr ''ttl''), w1)
      | (Inr (Some r), w1) \<Rightarrow>
          (case r_ttl r k w1 of
             (Inl e, w2) \<Rightarrow> (Inl e, w2)
           | (Inr t, w2) \<Rightarrow>
               if t = - 2 then (Inl (HTTPException 404 ''Key not found''), w2)
               else
                 (Inr \<lparr>ttl_key = k,
                       ttl_ttl = (if t \<noteq> - 1 then TTLInt t else TTLStr ''No TTL set''),
                       ttl_db_index = db_index\<rparr>, w2)))"

definition get_ttl :: "string \<Rightarrow> int \<Rightarrow> world \<Rightarrow> (exn + TTLResponse) \<times> world" where
  "get_ttl k db_index w = except_Exception (get_ttl_try k db_index w)"

text \<open>The status code of the response FastAPI sends for a handler's outcome: 200 for a
  returned value, the exception's own code for an \<open>HTTPException\<close>, 422 for a request that
  fails validation, 500 for any other exception.\<close>

definition status_of :: "exn + 'a \<Rightarrow> int" where
  "status_of res =
     (case res of
        Inr x \<Rightarrow> 200
      | Inl (HTTPException s d) \<Rightarrow> s
      | Inl (RequestValidationError m) \<Rightarrow> 422
      | Inl e \<Rightarrow> 500)"

section \<open>The request pipeline\<close>

text \<open>What the pipeline reads of a request: the path, the client address
  (\<^verbatim>\<open>request.client.host\<close>) and the header \<^verbatim>\<open>X-API-Key\<close>. The header is declared with
  \<^verbatim>\<open>Header(...)\<close>, so a request without it never reaches \<^verbatim>\<open>validate_api_key_dependency\<close>;
  the record describes the requests that carry one.\<close>

record request =
  path :: string
  client_host :: string
  x_api_key :: string

subsection \<open>\<^verbatim>\<open>apikey_manager.py\<close>\<close>

text \<open>\<^verbatim>\<open>SELECT 1 FROM api_keys WHERE key = ?\<close> returns a row.\<close>

definition validate_api_key :: "string \<Rightarrow> world \<Rightarrow> bool" where
  "validate_api_key api_key w = (api_key \<in> set (api_keys w))"

definition validate_api_key_dependency :: "string \<Rightarrow> world \<Rightarrow> exn + unit" where
  "validate_api_key_dependency k w =
     (if \<not> validate_api_key k w then Inl (HTTPException 403 ''Invalid API Key'') else Inr ())"

subsection \<open>The dependencies of a route\<close>

text \<open>
  \<^verbatim>\<open>RateLimiter(times=10, seconds=5)\<close> is a class of the library \<^verbatim>\<open>fastapi_limiter\<close>; its
  code is not part of the repository. Here it is a parameter: a function that, for a
  request and the state \<open>'c\<close> of the limiter's counters, lets the request pass or raises,
  and returns the new counters. The counters are \<open>'c\<close> wherever the library keeps them
  (it stores them on the Redis server, under keys of its own); \<open>store\<close> holds the keys
  that the data commands of the handlers read and write.
\<close>

type_synonym 'c limiter = "request \<Rightarrow> 'c \<Rightarrow> (exn + unit) \<times> 'c"

text \<open>
  \<^verbatim>\<open>dependencies=[Depends(validate_api_key_dependency), Depends(RateLimiter(...))]\<close>:
  FastAPI calls the dependencies in the order of the list, and an exception raised by one
  of them ends the request.
\<close>

definition dependencies :: "'c limiter \<Rightarrow> request \<Rightarrow> world \<times> 'c \<Rightarrow> (exn + unit) \<times> (world \<times> 'c)" where
  "dependencies lim req st =
     (case st of (w, c) \<Rightarrow>
        (case validate_api_key_dependency (x_api_key req) w of
           Inl e \<Rightarrow> (Inl e, (w, c))
         | Inr u \<Rightarrow>
             (case lim req c of
                (Inl e, c1) \<Rightarrow> (Inl e, (w, c1))
              | (Inr u1, c1) \<Rightarrow> (Inr (), (w, c1)))))"

text \<open>
  A decorated route: the dependencies, then the validation of the handler's own
  parameters (\<open>valid\<close>), then the handler.
\<close>

definition route ::
  "'c limiter \<Rightarrow> request \<Rightarrow> bool \<Rightarrow> (world \<Rightarrow> (exn + 'a) \<times> world) \<Rightarrow> world \<times> 'c
     \<Rightarrow> (exn + 'a) \<times> (world \<times> 'c)" where
  "route lim req valid handler st =
     (case dependencies lim req st of
        (Inl e, st1) \<Rightarrow> (Inl e, st1)
      | (Inr u, (w1, c1)) \<Rightarrow>
          if \<not> valid then (Inl (RequestValidationError ''value is not a valid KeyValueInput''), (w1, c1))
          else (case handler w1 of (res, w2) \<Rightarrow> (res, (w2, c1))))"

definition post_create :: "'c limiter \<Rightarrow> KeyValueInput \<Rightarrow> request \<Rightarrow> world \<times> 'c
     \<Rightarrow> (exn + KeyValueOutput) \<times> (world \<times> 'c)" where
  "post_create lim data req = route lim req (KeyValueInput_valid data) (create_key data)"

definition put_update :: "'c limiter \<Rightarrow> KeyValueInput \<Rightarrow> request \<Rightarrow> world \<times> 'c
     \<Rightarrow> (exn + KeyValueOutput) \<times> (world \<times> 'c)" where
  "put_update lim data req = route lim req (KeyValueInput_valid data) (update_key data)"

definition get_get :: "'c limiter \<Rightarrow> string \<Rightarrow> int \<Rightarrow> request \<Rightarrow> world \<times> 'c
     \<Rightarrow> (exn + KeyValueOutput) \<times> (world \<times> 'c)" where
  "get_get lim k db_index req = route lim req True (get_key k db_index)"

definition delete_delete :: "'c limiter \<Rightarrow> string \<Rightarrow> int \<Rightarrow> request \<Rightarrow> world \<times> 'c
     \<Rightarrow> (exn + DeleteResponse) \<times> (world \<times> 'c)" where
  "delete_delete lim k db_index req = route lim req True (delete_key k db_index)"

definition get_ttl_route :: "'c limiter \<Rightarrow> string \<Rightarrow> int \<Rightarrow> request \<Rightarrow> world \<times> 'c
     \<Rightarrow> (exn + TTLResponse) \<times> (world \<times> 'c)" where
  "get_ttl_route lim k db_index req = route lim req True (get_ttl k db_index)"

subsection \<open>\<^verbatim>\<open>rate_limit_middleware\<close>\<close>

text \<open>
  The middleware wraps the whole application: \<open>call_next\<close> is everything behind it
  (the route with its dependencies), \<open>now\<close> the integer timestamp it reads. The local
  variables are computed as in the source; none of them is read afterwards.
\<close>

definition rate_limit_middleware ::
  "request \<Rightarrow> int \<Rightarrow> (request \<Rightarrow> 's \<Rightarrow> 'r \<times> 's) \<Rightarrow> 's \<Rightarrow> 'r \<times> 's" where
  "rate_limit_middleware req now call_next s =
     (if path req = ''/metrics'' then call_next req s
      else
        (let client_ip = client_host req;
             key_prefix = ''rate_limit'';
             window_size = (60 :: int);
             window_start = now - (now mod window_size);
             ip_key = key_prefix @ '':ip:'' @ client_ip @ '':'' @ str_int window_start;
             global_key = key_prefix @ '':global:'' @ str_int window_start;
             global_limit = (1000 :: int);
             ip_limit = (if client_ip = ''127.0.0.1'' then (100 :: int) else 5)
         in call_next req s))"

section \<open>Invariants of the connection cache\<close>

text \<open>Every cached client is configured for the index it is cached under.\<close>

definition cache_inv :: "world \<Rightarrow> bool" where
  "cache_inv w = (\<forall>i. case redis_connections w i of None \<Rightarrow> True | Some c \<Rightarrow> h_db c = i)"

text \<open>Object identities: a cached client was constructed earlier than the next one.\<close>

definition fresh_ids :: "world \<Rightarrow> bool" where
  "fresh_ids w = (\<forall>i. case redis_connections w i of None \<Rightarrow> True | Some c \<Rightarrow> h_id c < next_id w)"

text \<open>The commands sent between two states.\<close>

definition new_calls :: "world \<Rightarrow> world \<Rightarrow> (command \<times> outcome) list" where
  "new_calls w w' = drop (length (calls w)) (calls w')"

text \<open>The command that reads a time to live.\<close>

fun is_TTL :: "command \<Rightarrow> bool" where
  "is_TTL (TTL r k) = True"
| "is_TTL c = False"

section \<open>Sample states and inputs\<close>

text \<open>A process that has just started: no cached client, an empty server that answers
  every command, one registered API key.\<close>

definition world0 :: world where
  "world0 = \<lparr>redis_connections = Map.empty, next_id = 0, store = (\<lambda>d. Map.empty),
             script = [], calls = [], api_keys = [''k1'']\<rparr>"

definition input_a :: KeyValueInput where
  "input_a = \<lparr>in_key = ''a'', in_value = ''1'', in_db_index = 0, in_ttl = None\<rparr>"

definition input_a_ttl :: KeyValueInput where
  "input_a_ttl = \<lparr>in_key = ''a'', in_value = ''0'', in_db_index = 0, in_ttl = Some 30\<rparr>"

definition handle0 :: handle where
  "handle0 = \<lparr>h_id = 0, h_db = 0\<rparr>"

text \<open>A process whose cached client for index 0 has lost its server: the next three
  commands fail, later ones are answered.\<close>

definition world_down :: world where
  "world_down = \<lparr>redis_connections = [0 \<mapsto> handle0], next_id = 1, store = (\<lambda>d. Map.empty),
     script = [Raises (ConnectionError ''refused''), Raises (TimeoutError ''timeout''),
               Raises (ConnectionError ''refused'')],
     calls = [], api_keys = [''k1'']\<rparr>"

text \<open>A limiter that counts every request it sees and lets it pass, and two requests.\<close>

definition count_limiter :: "nat limiter" where
  "count_limiter req c = (Inr (), Suc c)"

definition request_good :: request where
  "request_good = \<lparr>path = ''/get'', client_host = ''10.0.0.1'', x_api_key = ''k1''\<rparr>"

definition request_bad :: request where
  "request_bad = \<lparr>path = ''/get'', client_host = ''10.0.0.1'', x_api_key = ''nokey''\<rparr>"

definition input_16 :: KeyValueInput where
  "input_16 = \<lparr>in_key = ''a'', in_value = ''1'', in_db_index = 16, in_ttl = None\<rparr>"

text \<open>A process whose cached client for index 0 gets a reply to its ping that is not
  the expected one.\<close>

definition world_stale :: world where
  "world_stale = \<lparr>redis_connections = [0 \<mapsto> handle0], next_id = 1, store = (\<lambda>d. Map.empty),
     script = [Answer False], calls = [], api_keys = [''k1'']\<rparr>"

text \<open>The process of \<open>world_down\<close> after a call that used up its three attempts and a
  second call that found the server again.\<close>

definition world_up :: world where
  "world_up = snd (get_redis_connection 0 3 15 (snd (get_redis_connection 0 3 15 world_down)))"

text \<open>A fresh process after the key \<open>a\<close> was created with a time to live of 30 seconds.\<close>

definition world_ttl :: world where
  "world_ttl = snd (create_key input_a_ttl world0)"

section \<open>Effects of the backend commands and of one connection attempt\<close>

lemma round_trip_calls:
  "round_trip c w = (x, w') \<Longrightarrow>
     calls w' = calls w @ [(c, x)] \<and> redis_connections w' = redis_connections w \<and>
     next_id w' = next_id w \<and> store w' = store w \<and> api_keys w' = api_keys w"
  by (auto simp: round_trip_def split: list.splits)

lemma ping_effect:
  "ping c w = (res, w') \<Longrightarrow>
     (\<exists>x. calls w' = calls w @ [(PING c, x)] \<and>
          (case res of Inl e \<Rightarrow> x = Raises e | Inr b \<Rightarrow> x = Answer b)) \<and>
     redis_connections w' = redis_connections w \<and> next_id w' = next_id w \<and>
     store w' = store w \<and> api_keys w' = api_keys w"
  by (auto simp: ping_def split: prod.splits outcome.splits dest!: round_trip_calls)

lemma install_effect:
  "install i w = (res, w') \<Longrightarrow>
     res = Inr \<lparr>h_id = next_id w, h_db = i\<rparr> \<and>
     redis_connections w' = (redis_connections w)(i \<mapsto> \<lparr>h_id = next_id w, h_db = i\<rparr>) \<and>
     next_id w' = Suc (next_id w) \<and> calls w' = calls w \<and> store w' = store w \<and>
     api_keys w' = api_keys w \<and> script w' = script w"
  by (auto simp: install_def Redis_def)

text \<open>One attempt: the three ways it can end.\<close>

lemma connect_attempt_cases:
  assumes "connect_attempt i w = (res, w')"
  shows "(redis_connections w i = None \<and> res = Inr \<lparr>h_id = next_id w, h_db = i\<rparr> \<and>
            calls w' = calls w \<and> next_id w' = Suc (next_id w) \<and>
            redis_connections w' = (redis_connections w)(i \<mapsto> \<lparr>h_id = next_id w, h_db = i\<rparr>)) \<or>
         (\<exists>c. redis_connections w i = Some c \<and> res = Inr c \<and>
            calls w' = calls w @ [(PING c, Answer True)] \<and> next_id w' = next_id w \<and>
            redis_connections w' = redis_connections w) \<or>
         (\<exists>c. redis_connections w i = Some c \<and> res = Inr \<lparr>h_id = next_id w, h_db = i\<rparr> \<and>
            calls w' = calls w @ [(PING c, Answer False)] \<and> next_id w' = Suc (next_id w) \<and>
            redis_connections w' = (redis_connections w)(i \<mapsto> \<lparr>h_id = next_id w, h_db = i\<rparr>)) \<or>
         (\<exists>c e. redis_connections w i = Some c \<and> res = Inl e \<and>
            calls w' = calls w @ [(PING c, Raises e)] \<and> next_id w' = next_id w \<and>
            redis_connections w' = redis_connections w)"
  using assms
  by (auto simp: connect_attempt_def split: option.splits prod.splits sum.splits if_splits
      dest!: ping_effect install_effect)

lemma connect_attempt_frame:
  "connect_attempt i w = (res, w') \<Longrightarrow> store w' = store w \<and> api_keys w' = api_keys w"
  by (auto simp: connect_attempt_def split: option.splits prod.splits sum.splits if_splits
      dest!: ping_effect install_effect)

section \<open>The retry loop\<close>

text \<open>The ways the loop can end, and its one recursive step, as a rule of induction.\<close>

lemma retry_loop_cases [consumes 1, case_names stop ok fail final step]:
  assumes run: "retry_loop i m a w = (res, w')"
    and stop: "\<And>a w. \<not> a < m \<Longrightarrow> P a w (Inr None) w"
    and don: "\<And>a w r w1. a < m \<Longrightarrow> connect_attempt i w = (Inr r, w1) \<Longrightarrow> P a w (Inr (Some r)) w1"
    and fail: "\<And>a w e w1. a < m \<Longrightarrow> connect_attempt i w = (Inl e, w1) \<Longrightarrow> \<not> transient e
                 \<Longrightarrow> P a w (Inl e) w1"
    and last: "\<And>a w e w1. a < m \<Longrightarrow> connect_attempt i w = (Inl e, w1) \<Longrightarrow> transient e
                 \<Longrightarrow> a = m - 1 \<Longrightarrow> P a w (Inl (Exception (retry_message i m))) w1"
    and step: "\<And>a w e w1 res w'. a < m \<Longrightarrow> connect_attempt i w = (Inl e, w1) \<Longrightarrow> transient e
                 \<Longrightarrow> a \<noteq> m - 1 \<Longrightarrow> retry_loop i m (a + 1) w1 = (res, w')
                 \<Longrightarrow> P (a + 1) w1 res w' \<Longrightarrow> P a w res w'"
  shows "P a w res w'"
  using run
proof (induction "nat (m - a)" arbitrary: a w)
  case 0
  then have na: "\<not> a < m" by simp
  with "0.prems" have "res = Inr None" "w' = w" by (auto simp: retry_loop.simps)
  with stop [OF na] show ?case by simp
next
  case (Suc n)
  then have lt: "a < m" by simp
  obtain r1 w1 where ca: "connect_attempt i w = (r1, w1)" by (cases "connect_attempt i w")
  show ?case
  proof (cases r1)
    case (Inr h)
    with Suc.prems lt ca have "res = Inr (Some h)" "w' = w1" by (auto simp: retry_loop.simps)
    with don [OF lt, of w h w1] ca Inr show ?thesis by simp
  next
    case (Inl e)
    show ?thesis
    proof (cases "transient e")
      case False
      with Suc.prems lt ca Inl have "res = Inl e" "w' = w1" by (auto simp: retry_loop.simps)
      with fail [OF lt _ False, of w w1] ca Inl show ?thesis by simp
    next
      case tr: True
      show ?thesis
      proof (cases "a = m - 1")
        case True
        with Suc.prems lt ca Inl tr
        have "res = Inl (Exception (retry_message i m))" "w' = w1"
          by (auto simp: retry_loop.simps)
        with last [OF lt _ tr True, of w w1] ca Inl show ?thesis by simp
      next
        case False
        with Suc.prems lt ca Inl tr have rl: "retry_loop i m (a + 1) w1 = (res, w')"
          by (simp add: retry_loop.simps)
        from Suc.hyps(2) have "n = nat (m - (a + 1))" by simp
        from Suc.hyps(1) [OF this rl] have "P (a + 1) w1 res w'" .
        with step [OF lt _ tr False rl] ca Inl show ?thesis by simp
      qed
    qed
  qed
qed

lemma retry_loop_frame:
  "retry_loop i m a w = (res, w') \<Longrightarrow> store w' = store w \<and> api_keys w' = api_keys w"
  by (induction rule: retry_loop_cases) (auto dest: connect_attempt_frame)

lemma retry_loop_pings:
  "retry_loop i m a w = (res, w') \<Longrightarrow>
     \<exists>ps. calls w' = calls w @ ps \<and> length ps \<le> nat (m - a) \<and>
          (\<forall>p\<in>set ps. \<exists>c. redis_connections w i = Some c \<and> fst p = PING c)"
proof (induction rule: retry_loop_cases)
  case (stop a w)
  then show ?case by simp
next
  case (ok a w r w1)
  from connect_attempt_cases [OF ok(2)] ok(1) show ?case by auto
next
  case (fail a w e w1)
  from connect_attempt_cases [OF fail(2)] fail(1) show ?case by auto
next
  case (final a w e w1)
  from connect_attempt_cases [OF final(2)] final(1) show ?case by auto
next
  case (step a w e w1 res w')
  from connect_attempt_cases [OF step(2)] obtain c where
    c: "redis_connections w i = Some c" "calls w1 = calls w @ [(PING c, Raises e)]"
       "redis_connections w1 = redis_connections w"
    by auto
  from step(6) obtain ps where
    ps: "calls w' = calls w1 @ ps" "length ps \<le> nat (m - (a + 1))"
        "\<forall>p\<in>set ps. \<exists>c. redis_connections w1 i = Some c \<and> fst p = PING c"
    by blast
  have "calls w' = calls w @ ((PING c, Raises e) # ps)" using c ps by simp
  moreover have "length ((PING c, Raises e) # ps) \<le> nat (m - a)" using ps(2) step(1) by simp
  moreover have "\<forall>p\<in>set ((PING c, Raises e) # ps). \<exists>c. redis_connections w i = Some c \<and> fst p = PING c"
    using c ps(3) by simp
  ultimately show ?case by blast
qed

text \<open>While the loop fails, cache and identities stay as they are.\<close>

lemma retry_loop_not_handle:
  "retry_loop i m a w = (res, w') \<Longrightarrow> (\<forall>h. res \<noteq> Inr (Some h)) \<Longrightarrow>
     redis_connections w' = redis_connections w \<and> next_id w' = next_id w"
proof (induction rule: retry_loop_cases)
  case (step a w e w1 res w')
  from connect_attempt_cases [OF step(2)] step(6,7) show ?case by auto
qed (auto dest!: connect_attempt_cases)

text \<open>A returned handle: the cached one after a positive ping, or a new one.\<close>

lemma retry_loop_handle:
  "retry_loop i m a w = (res, w') \<Longrightarrow> res = Inr (Some h) \<Longrightarrow>
     redis_connections w' i = Some h \<and>
     ((redis_connections w i = Some h \<and> redis_connections w' = redis_connections w \<and>
       next_id w' = next_id w \<and> calls w' \<noteq> [] \<and> last (calls w') = (PING h, Answer True) \<and>
       length (calls w) < length (calls w')) \<or>
      (h = \<lparr>h_id = next_id w, h_db = i\<rparr> \<and>
       redis_connections w' = (redis_connections w)(i \<mapsto> h) \<and> next_id w' = Suc (next_id w) \<and>
       (\<forall>p\<in>set (new_calls w w'). snd p \<noteq> Answer True)))"
proof (induction rule: retry_loop_cases)
  case (ok a w r w1)
  from connect_attempt_cases [OF ok(2)] ok(3) show ?case
    by (auto simp: new_calls_def)
next
  case (step a w e w1 res w')
  from connect_attempt_cases [OF step(2)] obtain c where
    c: "redis_connections w i = Some c" "calls w1 = calls w @ [(PING c, Raises e)]"
       "redis_connections w1 = redis_connections w" "next_id w1 = next_id w"
    by auto
  from retry_loop_pings [OF step(5)] obtain ps where ps: "calls w' = calls w1 @ ps" by blast
  have nc: "new_calls w w' = (PING c, Raises e) # new_calls w1 w'"
    using c ps by (simp add: new_calls_def)
  from step(6) [OF step(7)] c nc ps show ?case by auto
qed auto

section \<open>\<^verbatim>\<open>get_redis_connection\<close>: validation first\<close>

lemma get_redis_connection_invalid:
  "i < 0 \<or> d < i \<Longrightarrow> \<exists>msg. get_redis_connection i m d w = (Inl (ValueError msg), w)"
  by (auto simp: get_redis_connection_def validate_db_index_def)

lemma get_redis_connection_cases:
  assumes "get_redis_connection i m d w = (res, w')"
  shows "((i < 0 \<or> d < i) \<and> w' = w \<and> (\<exists>msg. res = Inl (ValueError msg))) \<or>
         (0 \<le> i \<and> i \<le> d \<and> retry_loop i m 0 w = (res, w'))"
  using assms by (auto simp: get_redis_connection_def validate_db_index_def split: if_splits)

text \<open>The equations that evaluate the model on a concrete state.\<close>

lemmas eval_defs = get_redis_connection_def validate_db_index_def retry_loop.simps
  connect_attempt_def install_def Redis_def ping_def round_trip_def r_exists_def r_set_def
  r_get_def r_ttl_def r_delete_def except_Exception_def set_with_optional_ttl_def truthy_def
  status_of_def none_attr_def

text \<open>A handler answers 200 or 500: its last clause turns every exception of the
  \<^verbatim>\<open>try\<close> block, an \<open>HTTPException\<close> too, into \<open>HTTPException 500\<close>.\<close>

lemma handler_status:
  "status_of (fst (except_Exception r)) = 200 \<or> status_of (fst (except_Exception r)) = 500"
  by (auto simp: except_Exception_def status_of_def split: prod.splits sum.splits)

section \<open>The rate limit middleware\<close>

text \<open>
  Claim C1 (the per-caller caps of 5 and 100 and the global cap of 1000 requests per
  60-second window are enforced: request \<open>N + 1\<close> of a window is denied).
  The middleware computes the two window keys and the two limits and then hands every
  request to the rest of the application: whatever the path, the client address, the time
  and the state, its result is the result of \<open>call_next\<close>. It keeps no counter and denies
  nothing, so the sixth request of a client within one window is served like the first.
\<close>

theorem rate_limit_middleware_never_denies:
  "rate_limit_middleware req now call_next s = call_next req s"
  by (simp add: rate_limit_middleware_def)

section \<open>Status codes of the handlers\<close>

text \<open>
  Claim C2 (create on an existing key answers 400, update and delete on a missing key
  answer 404). On a fresh process, creating the key \<open>a\<close> twice, and updating or deleting the
  missing key \<open>a\<close>: the \<^verbatim>\<open>try\<close> block raises \<open>HTTPException 400\<close> (or \<open>404\<close>), the
  handler's own \<^verbatim>\<open>except Exception\<close> clause catches it, and the caller receives 500.
\<close>

theorem create_update_delete_answer_500:
  "fst (create_key_try input_a (snd (create_key input_a world0)))
     = Inl (HTTPException 400 ''Key already exists'') \<and>
   status_of (fst (create_key input_a (snd (create_key input_a world0)))) = 500 \<and>
   fst (update_key_try input_a world0) = Inl (HTTPException 404 ''Key not found'') \<and>
   status_of (fst (update_key input_a world0)) = 500 \<and>
   fst (delete_key_try ''a'' 0 world0) = Inl (HTTPException 404 ''Key not found'') \<and>
   status_of (fst (delete_key ''a'' 0 world0)) = 500"
  by (simp add: create_key_def create_key_try_def update_key_def update_key_try_def
      delete_key_def delete_key_try_def world0_def input_a_def eval_defs)

text \<open>
  Claim C7 (the TTL query answers 404 for a missing key and \<^verbatim>\<open>"No TTL set"\<close> for a key
  without expiry). For the missing key \<open>a\<close> the \<^verbatim>\<open>try\<close> block raises \<open>HTTPException 404\<close>
  and the caller receives 500, by the same clause as above; for a key without expiry the
  answer carries the string \<^verbatim>\<open>"No TTL set"\<close>.
\<close>

theorem get_ttl_missing_key_answers_500:
  "fst (get_ttl_try ''a'' 0 world0) = Inl (HTTPException 404 ''Key not found'') \<and>
   status_of (fst (get_ttl ''a'' 0 world0)) = 500 \<and>
   map_sum id ttl_ttl (fst (get_ttl ''a'' 0 (snd (create_key input_a world0))))
     = Inr (TTLStr ''No TTL set'')"
  by (simp add: get_ttl_def get_ttl_try_def create_key_def create_key_try_def
      world0_def input_a_def eval_defs)

section \<open>What one call of \<^verbatim>\<open>get_redis_connection\<close> does\<close>

lemma new_calls_append: "calls w' = calls w @ ps \<Longrightarrow> new_calls w w' = ps"
  by (simp add: new_calls_def)

text \<open>The commands of a call are pings of the client that was cached at entry, at most
  \<open>max_retries\<close> of them.\<close>

lemma get_redis_connection_pings:
  assumes "get_redis_connection i m d w = (res, w')"
  shows "calls w' = calls w @ new_calls w w' \<and> length (new_calls w w') \<le> nat m \<and>
         (\<forall>p\<in>set (new_calls w w'). \<exists>c. redis_connections w i = Some c \<and> fst p = PING c)"
proof -
  from get_redis_connection_cases [OF assms] show ?thesis
  proof
    assume "(i < 0 \<or> d < i) \<and> w' = w \<and> (\<exists>msg. res = Inl (ValueError msg))"
    then show ?thesis by (simp add: new_calls_def)
  next
    assume "0 \<le> i \<and> i \<le> d \<and> retry_loop i m 0 w = (res, w')"
    then have "retry_loop i m 0 w = (res, w')" by simp
    from retry_loop_pings [OF this] obtain ps where
      ps: "calls w' = calls w @ ps" "length ps \<le> nat (m - 0)"
          "\<forall>p\<in>set ps. \<exists>c. redis_connections w i = Some c \<and> fst p = PING c"
      by blast
    with new_calls_append [OF ps(1)] show ?thesis by simp
  qed
qed

lemma get_redis_connection_frame:
  assumes "get_redis_connection i m d w = (res, w')"
  shows "store w' = store w \<and> api_keys w' = api_keys w"
  using get_redis_connection_cases [OF assms] retry_loop_frame [of i m 0 w res w'] by auto

lemma get_redis_connection_handle:
  assumes "get_redis_connection i m d w = (Inr (Some h), w')"
  shows "0 \<le> i \<and> i \<le> d \<and> redis_connections w' i = Some h \<and>
     ((redis_connections w i = Some h \<and> redis_connections w' = redis_connections w \<and>
       next_id w' = next_id w \<and> new_calls w w' \<noteq> [] \<and>
       last (new_calls w w') = (PING h, Answer True)) \<or>
      (h = \<lparr>h_id = next_id w, h_db = i\<rparr> \<and>
       redis_connections w' = (redis_connections w)(i \<mapsto> h) \<and> next_id w' = Suc (next_id w) \<and>
       (\<forall>p\<in>set (new_calls w w'). snd p \<noteq> Answer True)))"
proof -
  from get_redis_connection_cases [OF assms]
  have v: "0 \<le> i \<and> i \<le> d" and rl: "retry_loop i m 0 w = (Inr (Some h), w')" by auto
  from get_redis_connection_pings [OF assms] have cs: "calls w' = calls w @ new_calls w w'" by simp
  have l: "length (calls w) < length (calls w') \<Longrightarrow> new_calls w w' \<noteq> [] \<and>
           last (new_calls w w') = last (calls w')"
  proof -
    assume a: "length (calls w) < length (calls w')"
    with cs have ne: "new_calls w w' \<noteq> []" by auto
    from cs have "last (calls w') = last (calls w @ new_calls w w')" by simp
    with ne show ?thesis by simp
  qed
  from retry_loop_handle [OF rl refl] v l show ?thesis by auto
qed

lemma get_redis_connection_not_handle:
  assumes "get_redis_connection i m d w = (res, w')" and "\<forall>h. res \<noteq> Inr (Some h)"
  shows "redis_connections w' = redis_connections w \<and> next_id w' = next_id w"
  using get_redis_connection_cases [OF assms(1)] retry_loop_not_handle [of i m 0 w res w'] assms(2)
  by auto

lemma get_redis_connection_miss:
  assumes "0 \<le> i" "i \<le> d" "0 < m" "redis_connections w i = None"
  shows "get_redis_connection i m d w =
           (Inr (Some \<lparr>h_id = next_id w, h_db = i\<rparr>),
            w\<lparr>next_id := Suc (next_id w),
              redis_connections := (redis_connections w)(i \<mapsto> \<lparr>h_id = next_id w, h_db = i\<rparr>)\<rparr>)"
proof -
  have "retry_loop i m 0 w =
           (Inr (Some \<lparr>h_id = next_id w, h_db = i\<rparr>),
            w\<lparr>next_id := Suc (next_id w),
              redis_connections := (redis_connections w)(i \<mapsto> \<lparr>h_id = next_id w, h_db = i\<rparr>)\<rparr>)"
    using assms by (subst retry_loop.simps) (simp add: connect_attempt_def install_def Redis_def)
  with assms show ?thesis by (simp add: get_redis_connection_def validate_db_index_def)
qed

lemma get_redis_connection_hit:
  assumes "0 \<le> i" "i \<le> d" "0 < m" "redis_connections w i = Some c"
    "fst (round_trip (PING c) w) = Answer True"
  shows "get_redis_connection i m d w = (Inr (Some c), snd (round_trip (PING c) w))"
proof -
  obtain x w1 where rt: "round_trip (PING c) w = (x, w1)" by (cases "round_trip (PING c) w")
  with assms(5) have x: "x = Answer True" by simp
  have "retry_loop i m 0 w = (Inr (Some c), w1)"
    using assms rt x by (subst retry_loop.simps) (simp add: connect_attempt_def ping_def)
  with assms rt show ?thesis by (simp add: get_redis_connection_def validate_db_index_def)
qed

text \<open>When the script is used up the server answers, and a call for a valid index
  returns a client.\<close>

lemma get_redis_connection_answered:
  assumes "script w = []" "0 \<le> i" "i \<le> d" "0 < m"
  shows "\<exists>r w1. get_redis_connection i m d w = (Inr (Some r), w1) \<and> script w1 = []"
proof (cases "redis_connections w i")
  case None
  from get_redis_connection_miss [OF assms(2,3,4) None] assms(1) show ?thesis by simp
next
  case (Some c)
  from assms(1) have rt: "round_trip (PING c) w = (Answer True, w\<lparr>calls := calls w @ [(PING c, Answer True)]\<rparr>)"
    by (simp add: round_trip_def)
  then have "fst (round_trip (PING c) w) = Answer True" by simp
  from get_redis_connection_hit [OF assms(2,3,4) Some this] rt assms(1) show ?thesis by simp
qed

section \<open>The invariant of the connection cache\<close>

text \<open>Every call keeps the cached clients configured for their indices.\<close>

lemma get_redis_connection_cache_inv:
  assumes "cache_inv w" and "get_redis_connection i m d w = (res, w')"
  shows "cache_inv w'" and "res = Inr (Some h) \<Longrightarrow> redis_connections w' i = Some h \<and> h_db h = i"
proof -
  show inv: "cache_inv w'"
  proof (cases "\<exists>h. res = Inr (Some h)")
    case False
    with get_redis_connection_not_handle [OF assms(2)] assms(1) show ?thesis
      by (simp add: cache_inv_def)
  next
    case True
    then obtain h where h: "res = Inr (Some h)" by blast
    from get_redis_connection_handle [OF assms(2) [unfolded h]]
    have "redis_connections w' = redis_connections w \<or>
            (h_db h = i \<and> redis_connections w' = (redis_connections w)(i \<mapsto> h))"
      by auto
    then show ?thesis
    proof
      assume "redis_connections w' = redis_connections w"
      with assms(1) show ?thesis by (simp add: cache_inv_def)
    next
      assume "h_db h = i \<and> redis_connections w' = (redis_connections w)(i \<mapsto> h)"
      with assms(1) show ?thesis by (simp add: cache_inv_def)
    qed
  qed
  assume h: "res = Inr (Some h)"
  from get_redis_connection_handle [OF assms(2) [unfolded h]]
  have c: "redis_connections w' i = Some h" by simp
  with inv have "h_db h = i"
    by (auto simp: cache_inv_def split: option.splits dest: spec [of _ i])
  with c show "redis_connections w' i = Some h \<and> h_db h = i" by simp
qed

text \<open>
  Claim C9 (the cache holds at most one client per index, a client cached under index \<open>i\<close>
  is configured for database \<open>i\<close>, a successful call returns the client that is cached for
  the index when it returns, and every call preserves this).
  The cache is a dictionary, a map from indices to clients, so an index has at most one
  client. If every cached client is configured for its index before a call of
  \<open>get_redis_connection\<close>, whatever its arguments and outcome, then so is every cached
  client after it; and a returned client is the entry of the index in the cache after the
  call and is configured for that index.
\<close>

theorem acquire_preserves_cache_inv:
  assumes "cache_inv w" and "get_redis_connection i m d w = (res, w')"
  shows "cache_inv w' \<and>
         (\<forall>h. res = Inr (Some h) \<longrightarrow> redis_connections w' i = Some h \<and> h_db h = i)"
  using get_redis_connection_cache_inv [OF assms] by blast

text \<open>On a fresh process the cache is empty; the first call for index 3 constructs a
  client for database 3 and caches it under 3.\<close>

theorem acquire_preserves_cache_inv_witness:
  "cache_inv world0 \<and>
   get_redis_connection 3 3 15 world0
     = (Inr (Some \<lparr>h_id = 0, h_db = 3\<rparr>), snd (get_redis_connection 3 3 15 world0)) \<and>
   cache_inv (snd (get_redis_connection 3 3 15 world0)) \<and>
   redis_connections (snd (get_redis_connection 3 3 15 world0)) 3 = Some \<lparr>h_id = 0, h_db = 3\<rparr>"
proof -
  have i: "cache_inv world0" by (simp add: cache_inv_def world0_def)
  have g: "get_redis_connection 3 3 15 world0
     = (Inr (Some \<lparr>h_id = 0, h_db = 3\<rparr>), snd (get_redis_connection 3 3 15 world0))"
    by (simp add: world0_def eval_defs)
  from acquire_preserves_cache_inv [OF i g] i g show ?thesis by simp
qed

section \<open>Invalid database indices\<close>

lemma dependencies_world:
  "fst (snd (dependencies lim req (w, c))) = w"
  by (simp add: dependencies_def split: sum.splits prod.splits)

text \<open>
  Claim C3 (for a \<open>db_index\<close> outside \<open>[0, 15]\<close> every handler answers 400 without a
  backend call). As stated the claim fails: \<^verbatim>\<open>GET /get?key=a&db_index=16\<close> on a fresh
  process is answered with 500.
\<close>

theorem invalid_db_index_counterexample:
  "status_of (fst (get_key ''a'' 16 world0)) = 500 \<and>
   status_of (fst (get_key ''a'' 16 world0)) \<noteq> 400"
  by (simp add: get_key_def get_key_try_def world0_def eval_defs)

text \<open>
  Claim C3, amended. For a \<open>db_index\<close> outside \<open>[0, 15]\<close>, each of the five handlers
  answers 500 (the \<open>ValueError\<close> of \<open>validate_db_index\<close>, caught by the handler's last
  clause) and leaves the whole state as it was: no command is sent, the cache is not
  touched. Through the routes \<^verbatim>\<open>POST /create\<close> and \<^verbatim>\<open>PUT /update\<close> a body with such an
  index never reaches the handler: the cache and the keys of the data commands stay as
  they were (the limiter's counters are not part of \<open>w\<close>), and once the dependencies have
  passed the answer is 422.
\<close>

theorem invalid_db_index_answers_500:
  assumes "db < 0 \<or> 15 < db" and "in_db_index data = db"
  shows "status_of (fst (get_key k db w)) = 500 \<and> snd (get_key k db w) = w \<and>
         status_of (fst (delete_key k db w)) = 500 \<and> snd (delete_key k db w) = w \<and>
         status_of (fst (get_ttl k db w)) = 500 \<and> snd (get_ttl k db w) = w \<and>
         status_of (fst (create_key data w)) = 500 \<and> snd (create_key data w) = w \<and>
         status_of (fst (update_key data w)) = 500 \<and> snd (update_key data w) = w \<and>
         fst (snd (post_create lim data req (w, c))) = w \<and>
         fst (snd (put_update lim data req (w, c))) = w \<and>
         (fst (dependencies lim req (w, c)) = Inr () \<longrightarrow>
            status_of (fst (post_create lim data req (w, c))) = 422 \<and>
            status_of (fst (put_update lim data req (w, c))) = 422)"
proof -
  from assms(1) obtain msg where g: "get_redis_connection db 3 15 w = (Inl (ValueError msg), w)"
    using get_redis_connection_invalid [of db 15 3 w] by auto
  have nv: "\<not> KeyValueInput_valid data" using assms by (auto simp: KeyValueInput_valid_def)
  have h1: "status_of (fst (get_key k db w)) = 500 \<and> snd (get_key k db w) = w"
    using g by (simp add: get_key_def get_key_try_def except_Exception_def status_of_def)
  have h2: "status_of (fst (delete_key k db w)) = 500 \<and> snd (delete_key k db w) = w"
    using g by (simp add: delete_key_def delete_key_try_def except_Exception_def status_of_def)
  have h3: "status_of (fst (get_ttl k db w)) = 500 \<and> snd (get_ttl k db w) = w"
    using g by (simp add: get_ttl_def get_ttl_try_def except_Exception_def status_of_def)
  have h4: "status_of (fst (create_key data w)) = 500 \<and> snd (create_key data w) = w"
    using g assms(2)
    by (simp add: create_key_def create_key_try_def except_Exception_def status_of_def)
  have h5: "status_of (fst (update_key data w)) = 500 \<and> snd (update_key data w) = w"
    using g assms(2)
    by (simp add: update_key_def update_key_try_def except_Exception_def status_of_def)
  have h6: "fst (snd (post_create lim data req (w, c))) = w \<and>
            fst (snd (put_update lim data req (w, c))) = w"
    using nv dependencies_world [of lim req w c]
    by (auto simp: post_create_def put_update_def route_def split: prod.splits sum.splits)
  have h7: "fst (dependencies lim req (w, c)) = Inr () \<longrightarrow>
            status_of (fst (post_create lim data req (w, c))) = 422 \<and>
            status_of (fst (put_update lim data req (w, c))) = 422"
    using nv
    by (auto simp: post_create_def put_update_def route_def status_of_def
        split: prod.splits sum.splits)
  from h1 h2 h3 h4 h5 h6 h7 show ?thesis by blast
qed

theorem invalid_db_index_answers_500_witness:
  "((16::int) < 0 \<or> 15 < (16::int)) \<and> in_db_index input_16 = 16 \<and>
   fst (dependencies count_limiter request_good (world0, 0)) = Inr () \<and>
   status_of (fst (get_key ''a'' 16 world0)) = 500 \<and> snd (get_key ''a'' 16 world0) = world0 \<and>
   status_of (fst (create_key input_16 world0)) = 500 \<and>
   status_of (fst (post_create count_limiter input_16 request_good (world0, 0))) = 422"
proof -
  have h: "(16::int) < 0 \<or> 15 < (16::int)" by simp
  have i: "in_db_index input_16 = 16" by (simp add: input_16_def)
  have d: "fst (dependencies count_limiter request_good (world0, 0)) = Inr ()"
    by (simp add: dependencies_def validate_api_key_dependency_def validate_api_key_def
        count_limiter_def request_good_def world0_def)
  from invalid_db_index_answers_500 [OF h i, of "''a''" world0 count_limiter request_good 0] h i d
  show ?thesis by simp
qed

section \<open>Authentication comes before the limiter\<close>

lemma dependencies_unauthorized:
  "x_api_key req \<notin> set (api_keys w) \<Longrightarrow>
     dependencies lim req (w, c) = (Inl (HTTPException 403 ''Invalid API Key''), (w, c))"
  by (simp add: dependencies_def validate_api_key_dependency_def validate_api_key_def)

lemma route_unauthorized:
  "x_api_key req \<notin> set (api_keys w) \<Longrightarrow>
     route lim req valid handler (w, c) = (Inl (HTTPException 403 ''Invalid API Key''), (w, c))"
  by (simp add: route_def dependencies_unauthorized)

text \<open>
  Claim C6 (a request whose credential is not in the credential store is answered with
  Unauthorized before the rate limiter runs, so it increments no rate-limit counter).
  For each of the five routes behind the middleware, whatever the limiter \<open>lim\<close> does with
  its counters \<open>c\<close>: a request whose key is not in the table \<^verbatim>\<open>api_keys\<close> is answered with
  \<open>HTTPException 403\<close>, and the counters, the cache and the server are exactly as before.
  The limiter of the route is never called and the handler is never entered; the
  middleware, which runs first, keeps no counter.
\<close>

theorem unauthorized_before_rate_limit:
  assumes "x_api_key req \<notin> set (api_keys w)"
  shows "rate_limit_middleware req now (post_create lim data) (w, c)
           = (Inl (HTTPException 403 ''Invalid API Key''), (w, c)) \<and>
         rate_limit_middleware req now (put_update lim data) (w, c)
           = (Inl (HTTPException 403 ''Invalid API Key''), (w, c)) \<and>
         rate_limit_middleware req now (get_get lim k db_index) (w, c)
           = (Inl (HTTPException 403 ''Invalid API Key''), (w, c)) \<and>
         rate_limit_middleware req now (delete_delete lim k db_index) (w, c)
           = (Inl (HTTPException 403 ''Invalid API Key''), (w, c)) \<and>
         rate_limit_middleware req now (get_ttl_route lim k db_index) (w, c)
           = (Inl (HTTPException 403 ''Invalid API Key''), (w, c))"
  using assms
  by (simp add: rate_limit_middleware_def post_create_def put_update_def get_get_def
      delete_delete_def get_ttl_route_def route_unauthorized)

text \<open>With a limiter that counts every request it sees: the request with an unknown key
  leaves the count at 5, the same request with a registered key raises it to 6.\<close>

theorem unauthorized_before_rate_limit_witness:
  "x_api_key request_bad \<notin> set (api_keys world0) \<and>
   rate_limit_middleware request_bad 125 (get_get count_limiter ''a'' 0) (world0, 5)
     = (Inl (HTTPException 403 ''Invalid API Key''), (world0, 5)) \<and>
   snd (snd (rate_limit_middleware request_good 125 (get_get count_limiter ''a'' 0) (world0, 5))) = 6"
proof -
  have h: "x_api_key request_bad \<notin> set (api_keys world0)"
    by (simp add: request_bad_def world0_def)
  have g: "snd (snd (rate_limit_middleware request_good 125 (get_get count_limiter ''a'' 0) (world0, 5))) = 6"
    by (simp add: rate_limit_middleware_def get_get_def route_def dependencies_def
        validate_api_key_dependency_def validate_api_key_def count_limiter_def
        request_good_def world0_def split: prod.splits)
  from unauthorized_before_rate_limit [OF h, of 125 count_limiter _ 5 "''a''" 0] h g
  show ?thesis by simp
qed

section \<open>Liveness checks\<close>

text \<open>
  Claim C5 (every client that \<open>get_redis_connection\<close> returns has passed a ping within
  that call, a freshly constructed one included). As stated the claim fails: on a fresh
  process the call for index 0 constructs a client, caches and returns it, and sends no
  command at all.
\<close>

theorem fresh_handle_not_pinged:
  "get_redis_connection 0 3 15 world0
     = (Inr (Some handle0), world0\<lparr>redis_connections := [0 \<mapsto> handle0], next_id := 1\<rparr>) \<and>
   new_calls world0 (snd (get_redis_connection 0 3 15 world0)) = []"
  by (simp add: world0_def handle0_def new_calls_def eval_defs)

text \<open>
  Claim C5, amended. A client returned by \<open>get_redis_connection\<close> is either the one that
  was cached for the index at entry, and then the last command of the call is a ping of
  this client that was answered positively; or it is a client constructed during the call
  (the index had no cached client, or the cached one's ping was answered negatively), and
  then no command of the call was answered positively and, the cached clients being older
  than the new one, no command of the call was addressed to it: it is returned unprobed.
\<close>

theorem returned_handle_pinged_iff_cached:
  assumes "get_redis_connection i m d w = (Inr (Some h), w')"
  shows "(redis_connections w i = Some h \<and> redis_connections w' = redis_connections w \<and>
          new_calls w w' \<noteq> [] \<and> last (new_calls w w') = (PING h, Answer True)) \<or>
         (h = \<lparr>h_id = next_id w, h_db = i\<rparr> \<and>
          redis_connections w' = (redis_connections w)(i \<mapsto> h) \<and>
          (\<forall>p\<in>set (new_calls w w'). snd p \<noteq> Answer True \<and> (fresh_ids w \<longrightarrow> fst p \<noteq> PING h)))"
proof -
  from get_redis_connection_pings [OF assms]
  have pg: "\<forall>p\<in>set (new_calls w w'). \<exists>c. redis_connections w i = Some c \<and> fst p = PING c"
    by simp
  have fr: "h_id h = next_id w \<Longrightarrow> fresh_ids w \<Longrightarrow> \<forall>p\<in>set (new_calls w w'). fst p \<noteq> PING h"
  proof
    fix p assume a: "h_id h = next_id w" "fresh_ids w" "p \<in> set (new_calls w w')"
    with pg obtain c where c: "redis_connections w i = Some c" "fst p = PING c" by blast
    from a(2) c(1) have "h_id c < next_id w"
      by (auto simp: fresh_ids_def split: option.splits dest: spec [of _ i])
    with a(1) have "c \<noteq> h" by auto
    with c(2) show "fst p \<noteq> PING h" by simp
  qed
  from get_redis_connection_handle [OF assms]
  have "(redis_connections w i = Some h \<and> redis_connections w' = redis_connections w \<and>
          new_calls w w' \<noteq> [] \<and> last (new_calls w w') = (PING h, Answer True)) \<or>
        (h = \<lparr>h_id = next_id w, h_db = i\<rparr> \<and>
          redis_connections w' = (redis_connections w)(i \<mapsto> h) \<and>
          (\<forall>p\<in>set (new_calls w w'). snd p \<noteq> Answer True))"
    by blast
  then show ?thesis
  proof
    assume "redis_connections w i = Some h \<and> redis_connections w' = redis_connections w \<and>
          new_calls w w' \<noteq> [] \<and> last (new_calls w w') = (PING h, Answer True)"
    then show ?thesis by blast
  next
    assume a: "h = \<lparr>h_id = next_id w, h_db = i\<rparr> \<and>
          redis_connections w' = (redis_connections w)(i \<mapsto> h) \<and>
          (\<forall>p\<in>set (new_calls w w'). snd p \<noteq> Answer True)"
    then have "h_id h = next_id w" by simp
    from fr [OF this] a show ?thesis by blast
  qed
qed

text \<open>Both cases: the cached client of \<open>world_down\<close> once the server answers again, and
  the client that replaces the one of \<open>world_stale\<close>.\<close>

theorem returned_handle_pinged_iff_cached_witness:
  "get_redis_connection 0 3 15 (snd (get_redis_connection 0 3 15 world_down))
     = (Inr (Some handle0), world_up) \<and>
   last (new_calls (snd (get_redis_connection 0 3 15 world_down)) world_up)
     = (PING handle0, Answer True) \<and>
   fresh_ids world_stale \<and>
   get_redis_connection 0 3 15 world_stale
     = (Inr (Some \<lparr>h_id = 1, h_db = 0\<rparr>), snd (get_redis_connection 0 3 15 world_stale)) \<and>
   new_calls world_stale (snd (get_redis_connection 0 3 15 world_stale))
     = [(PING handle0, Answer False)] \<and>
   (PING \<lparr>h_id = 1, h_db = 0\<rparr>, Answer False)
     \<notin> set (new_calls world_stale (snd (get_redis_connection 0 3 15 world_stale)))"
proof -
  have g: "get_redis_connection 0 3 15 (snd (get_redis_connection 0 3 15 world_down))
     = (Inr (Some handle0), world_up)"
    by (simp add: world_up_def) (simp add: world_down_def handle0_def eval_defs)
  have n: "handle0 \<noteq> \<lparr>h_id = next_id (snd (get_redis_connection 0 3 15 world_down)), h_db = 0\<rparr>"
    by (simp add: world_down_def handle0_def eval_defs)
  have f: "fresh_ids world_stale"
    by (simp add: fresh_ids_def world_stale_def handle0_def)
  have s: "get_redis_connection 0 3 15 world_stale
     = (Inr (Some \<lparr>h_id = 1, h_db = 0\<rparr>), snd (get_redis_connection 0 3 15 world_stale))"
    by (simp add: world_stale_def handle0_def eval_defs)
  have c: "new_calls world_stale (snd (get_redis_connection 0 3 15 world_stale))
     = [(PING handle0, Answer False)]"
    by (simp add: world_stale_def handle0_def new_calls_def eval_defs)
  have m: "redis_connections world_stale 0 \<noteq> Some \<lparr>h_id = 1, h_db = 0\<rparr>"
    by (simp add: world_stale_def handle0_def)
  from returned_handle_pinged_iff_cached [OF g] n have 1:
    "last (new_calls (snd (get_redis_connection 0 3 15 world_down)) world_up)
       = (PING handle0, Answer True)"
    by simp
  from returned_handle_pinged_iff_cached [OF s] m f c have 2:
    "(PING \<lparr>h_id = 1, h_db = 0\<rparr>, Answer False)
       \<notin> set (new_calls world_stale (snd (get_redis_connection 0 3 15 world_stale)))"
    by auto
  from g 1 f s c 2 show ?thesis by blast
qed

section \<open>Retries and reuse\<close>





section \<open>Update without a time to live\<close>

lemma r_exists_effect:
  "r_exists r k w = (Inr n, w') \<Longrightarrow>
     store w' = store w \<and> (n \<noteq> 0 \<longleftrightarrow> store w (h_db r) k \<noteq> None)"
  by (auto simp: r_exists_def split: prod.splits outcome.splits if_splits dest!: round_trip_calls)

lemma r_set_effect:
  "r_set r k v ex w = (Inr b, w') \<Longrightarrow>
     store w' = (store w)(h_db r := (store w (h_db r))(k \<mapsto> (v, ex)))"
  by (auto simp: r_set_def split: prod.splits outcome.splits option.splits if_splits
      dest!: round_trip_calls)

lemma update_key_Inr:
  assumes "update_key data w = (Inr out, w')"
  shows "\<exists>r w1 n w2 ok.
           get_redis_connection (in_db_index data) 3 15 w = (Inr (Some r), w1) \<and>
           r_exists r (in_key data) w1 = (Inr n, w2) \<and> n \<noteq> 0 \<and>
           set_with_optional_ttl r data w2 = (Inr ok, w')"
  using assms
  by (auto simp: update_key_def update_key_try_def except_Exception_def
      split: prod.splits sum.splits option.splits if_splits)

text \<open>
  Claim C8 (an update of an existing key that omits the ttl sets the value and clears an
  earlier expiry). With the cached clients configured for their indices and \<open>ttl\<close>
  omitted: whenever \<open>update_key\<close> succeeds, the key existed before and holds the new value
  without expiry afterwards; and when the key exists, the index is valid and the server
  answers, \<open>update_key\<close> does succeed. The handler sends \<^verbatim>\<open>SET key value\<close> without an expiry
  option, and the server's \<^verbatim>\<open>SET\<close> drops the time to live of the key.
\<close>

theorem update_without_ttl_clears_expiry:
  assumes "cache_inv w" and "in_ttl data = None"
  shows "(\<forall>out w'. update_key data w = (Inr out, w') \<longrightarrow>
            store w (in_db_index data) (in_key data) \<noteq> None \<and>
            store w' (in_db_index data) (in_key data) = Some (in_value data, None)) \<and>
         (script w = [] \<and> 0 \<le> in_db_index data \<and> in_db_index data \<le> 15 \<and>
          store w (in_db_index data) (in_key data) \<noteq> None \<longrightarrow>
            status_of (fst (update_key data w)) = 200 \<and>
            store (snd (update_key data w)) (in_db_index data) (in_key data)
              = Some (in_value data, None))"
proof (intro conjI allI impI)
  fix out w'
  assume u: "update_key data w = (Inr out, w')"
  from update_key_Inr [OF u] obtain r w1 n w2 ok where
    g: "get_redis_connection (in_db_index data) 3 15 w = (Inr (Some r), w1)" and
    e: "r_exists r (in_key data) w1 = (Inr n, w2)" "n \<noteq> 0" and
    s: "set_with_optional_ttl r data w2 = (Inr ok, w')"
    by blast
  from get_redis_connection_cache_inv(2) [OF assms(1) g refl] have db: "h_db r = in_db_index data"
    by simp
  from get_redis_connection_frame [OF g] have s1: "store w1 = store w" by simp
  from r_exists_effect [OF e(1)] e(2) have s2: "store w2 = store w1"
    "store w1 (h_db r) (in_key data) \<noteq> None" by simp_all
  from s assms(2) have "r_set r (in_key data) (in_value data) None w2 = (Inr ok, w')"
    by (simp add: set_with_optional_ttl_def truthy_def)
  from r_set_effect [OF this]
  have s3: "store w' = (store w2)(h_db r := (store w2 (h_db r))(in_key data \<mapsto> (in_value data, None)))" .
  from s1 s2 db show "store w (in_db_index data) (in_key data) \<noteq> None" by simp
  from s3 db show "store w' (in_db_index data) (in_key data) = Some (in_value data, None)" by simp
next
  assume a: "script w = [] \<and> 0 \<le> in_db_index data \<and> in_db_index data \<le> 15 \<and>
          store w (in_db_index data) (in_key data) \<noteq> None"
  from get_redis_connection_answered [of w "in_db_index data" 15 3] a
  obtain r w1 where g: "get_redis_connection (in_db_index data) 3 15 w = (Inr (Some r), w1)"
    and s1: "script w1 = []" by auto
  from get_redis_connection_cache_inv(2) [OF assms(1) g refl] have db: "h_db r = in_db_index data"
    by simp
  from get_redis_connection_frame [OF g] have st: "store w1 = store w" by simp
  let ?w2 = "w1\<lparr>calls := calls w1 @ [(EXISTS r (in_key data), Answer True)]\<rparr>"
  have e: "r_exists r (in_key data) w1 = (Inr 1, ?w2)"
    using a s1 st db by (simp add: r_exists_def round_trip_def)
  have s: "set_with_optional_ttl r data ?w2 =
             (Inr True, ?w2\<lparr>calls := calls ?w2 @ [(SET r (in_key data) (in_value data) None, Answer True)],
                store := (store ?w2)(h_db r := (store ?w2 (h_db r))(in_key data \<mapsto> (in_value data, None)))\<rparr>)"
    using s1 assms(2) by (simp add: set_with_optional_ttl_def truthy_def r_set_def round_trip_def)
  from g e s show "status_of (fst (update_key data w)) = 200"
    by (simp add: update_key_def update_key_try_def except_Exception_def status_of_def)
  from g e s db
  show "store (snd (update_key data w)) (in_db_index data) (in_key data)
              = Some (in_value data, None)"
    by (simp add: update_key_def update_key_try_def except_Exception_def)
qed

text \<open>The key \<open>a\<close>, created with 30 seconds to live, reports \<open>30\<close> before the update and
  \<open>-1\<close> (no expiry) after it.\<close>

theorem update_without_ttl_clears_expiry_witness:
  "cache_inv world_ttl \<and> in_ttl input_a = None \<and> script world_ttl = [] \<and>
   store world_ttl 0 ''a'' = Some (''0'', Some 30) \<and>
   status_of (fst (update_key input_a world_ttl)) = 200 \<and>
   store (snd (update_key input_a world_ttl)) 0 ''a'' = Some (''1'', None) \<and>
   fst (r_ttl handle0 ''a'' world_ttl) = Inr 30 \<and>
   fst (r_ttl handle0 ''a'' (snd (update_key input_a world_ttl))) = Inr (- 1)"
proof -
  have w: "world_ttl = \<lparr>redis_connections = [0 \<mapsto> handle0], next_id = 1,
      store = (\<lambda>d. Map.empty)(0 := [''a'' \<mapsto> (''0'', Some 30)]), script = [],
      calls = [(EXISTS handle0 ''a'', Answer True), (SET handle0 ''a'' ''0'' (Some 30), Answer True)],
      api_keys = [''k1'']\<rparr>"
    by (simp add: world_ttl_def create_key_def create_key_try_def world0_def input_a_ttl_def
        handle0_def eval_defs)
  have i: "cache_inv world_ttl" by (simp add: w cache_inv_def handle0_def)
  have n: "in_ttl input_a = None" by (simp add: input_a_def)
  have s: "script world_ttl = []" by (simp add: w)
  have k: "store world_ttl 0 ''a'' = Some (''0'', Some 30)" by (simp add: w)
  have d: "in_db_index input_a = 0" "in_key input_a = ''a''" "in_value input_a = ''1''"
    by (simp_all add: input_a_def)
  have t1: "fst (r_ttl handle0 ''a'' world_ttl) = Inr 30"
    by (simp add: w handle0_def eval_defs)
  have t2: "fst (r_ttl handle0 ''a'' (snd (update_key input_a world_ttl))) = Inr (- 1)"
    by (simp add: w update_key_def update_key_try_def input_a_def handle0_def eval_defs)
  from update_without_ttl_clears_expiry [OF i n] i n s k d t1 t2 show ?thesis by simp
qed

section \<open>The answer to a successful write\<close>

lemma r_exists_calls:
  "r_exists r k w = (res, w') \<Longrightarrow> \<exists>x. calls w' = calls w @ [(EXISTS r k, x)]"
  by (auto simp: r_exists_def split: prod.splits outcome.splits dest!: round_trip_calls)

lemma set_with_optional_ttl_calls:
  "set_with_optional_ttl r data w = (res, w') \<Longrightarrow>
     \<exists>ex x. calls w' = calls w @ [(SET r (in_key data) (in_value data) ex, x)]"
  by (auto simp: set_with_optional_ttl_def r_set_def
      split: prod.splits outcome.splits option.splits if_splits dest!: round_trip_calls)

lemma create_key_Inr:
  assumes "create_key data w = (Inr out, w')"
  shows "\<exists>r w1 n w2 ok.
           get_redis_connection (in_db_index data) 3 15 w = (Inr (Some r), w1) \<and>
           r_exists r (in_key data) w1 = (Inr n, w2) \<and> n = 0 \<and>
           set_with_optional_ttl r data w2 = (Inr ok, w')"
  using assms
  by (auto simp: create_key_def create_key_try_def except_Exception_def
      split: prod.splits sum.splits option.splits if_splits)

text \<open>The commands of a write: the pings of the connection check, one \<^verbatim>\<open>EXISTS\<close>, one \<^verbatim>\<open>SET\<close>.\<close>

lemma write_calls:
  assumes g: "get_redis_connection i 3 15 w = (Inr (Some r), w1)"
    and e: "r_exists r (in_key data) w1 = (Inr n, w2)"
    and s: "set_with_optional_ttl r data w2 = (Inr ok, w')"
  shows "\<forall>p\<in>set (new_calls w w'). \<not> is_TTL (fst p)"
proof -
  from get_redis_connection_pings [OF g]
  have c1: "calls w1 = calls w @ new_calls w w1"
    and p1: "\<forall>p\<in>set (new_calls w w1). \<exists>c. fst p = PING c" by auto
  from r_exists_calls [OF e] obtain x where c2: "calls w2 = calls w1 @ [(EXISTS r (in_key data), x)]"
    by blast
  from set_with_optional_ttl_calls [OF s] obtain ex y where
    c3: "calls w' = calls w2 @ [(SET r (in_key data) (in_value data) ex, y)]" by blast
  have "calls w' = calls w @ (new_calls w w1 @
          [(EXISTS r (in_key data), x), (SET r (in_key data) (in_value data) ex, y)])"
    using c1 c2 c3 by simp
  from new_calls_append [OF this] p1 show ?thesis by auto
qed

text \<open>When the server answers, a write on a valid input goes through: the connection
  check returns a client for the index, \<^verbatim>\<open>EXISTS\<close> reports the key, \<^verbatim>\<open>SET\<close> succeeds.\<close>

lemma write_answered:
  assumes inv: "cache_inv w" and sc: "script w = []" and v: "KeyValueInput_valid data"
  shows "\<exists>r w1 w2 w3.
           get_redis_connection (in_db_index data) 3 15 w = (Inr (Some r), w1) \<and>
           r_exists r (in_key data) w1
             = (Inr (if store w (in_db_index data) (in_key data) = None then 0 else 1), w2) \<and>
           set_with_optional_ttl r data w2 = (Inr True, w3)"
proof -
  from v have rng: "0 \<le> in_db_index data" "in_db_index data \<le> 15"
    and tt: "case in_ttl data of None \<Rightarrow> True | Some t \<Rightarrow> 1 \<le> t"
    by (simp_all add: KeyValueInput_valid_def)
  from get_redis_connection_answered [OF sc rng, of 3] obtain r w1 where
    g: "get_redis_connection (in_db_index data) 3 15 w = (Inr (Some r), w1)" and s1: "script w1 = []"
    by auto
  from get_redis_connection_cache_inv(2) [OF inv g refl] have db: "h_db r = in_db_index data"
    by simp
  from get_redis_connection_frame [OF g] have st: "store w1 = store w" by simp
  let ?w2 = "w1\<lparr>calls := calls w1 @ [(EXISTS r (in_key data), Answer True)]\<rparr>"
  have e: "r_exists r (in_key data) w1
             = (Inr (if store w (in_db_index data) (in_key data) = None then 0 else 1), ?w2)"
    using s1 st db by (simp add: r_exists_def round_trip_def)
  have "\<exists>w3. set_with_optional_ttl r data ?w2 = (Inr True, w3)"
    using s1 tt
    by (cases "in_ttl data") (auto simp: set_with_optional_ttl_def truthy_def r_set_def round_trip_def)
  with g e show ?thesis by blast
qed

lemma world_ttl_eq:
  "world_ttl = \<lparr>redis_connections = [0 \<mapsto> handle0], next_id = 1,
      store = (\<lambda>d. Map.empty)(0 := [''a'' \<mapsto> (''0'', Some 30)]), script = [],
      calls = [(EXISTS handle0 ''a'', Answer True), (SET handle0 ''a'' ''0'' (Some 30), Answer True)],
      api_keys = [''k1'']\<rparr>"
  by (simp add: world_ttl_def create_key_def create_key_try_def world0_def input_a_ttl_def
      handle0_def eval_defs)

text \<open>
  Claim C10 (on a successful create or update the response's key, value, ttl and db_index
  are the request's; the ttl is the requested one, \<^verbatim>\<open>None\<close> when omitted, and not a time
  to live read back from the server after the write). Whenever \<open>create_key\<close> or
  \<open>update_key\<close> succeeds, the four fields of the answer are those of the request and none
  of the commands the handler sent is a \<^verbatim>\<open>TTL\<close>. And they do succeed with exactly this
  answer: for a valid input, cached clients configured for their indices and a server that
  answers, \<open>create_key\<close> on a missing key and \<open>update_key\<close> on an existing key return the
  request's fields with their message.
\<close>

theorem create_update_echo_request:
  "(create_key data w = (Inr out, w') \<or> update_key data w = (Inr out, w') \<longrightarrow>
      out_key out = in_key data \<and> out_value out = Some (in_value data) \<and>
      out_ttl out = in_ttl data \<and> out_db_index out = in_db_index data \<and>
      (\<forall>p\<in>set (new_calls w w'). \<not> is_TTL (fst p))) \<and>
   (cache_inv w \<and> script w = [] \<and> KeyValueInput_valid data \<and>
    store w (in_db_index data) (in_key data) = None \<longrightarrow>
      fst (create_key data w) =
        Inr \<lparr>out_key = in_key data, out_value = Some (in_value data), out_ttl = in_ttl data,
             out_db_index = in_db_index data, out_message = ''Key created successfully''\<rparr>) \<and>
   (cache_inv w \<and> script w = [] \<and> KeyValueInput_valid data \<and>
    store w (in_db_index data) (in_key data) \<noteq> None \<longrightarrow>
      fst (update_key data w) =
        Inr \<lparr>out_key = in_key data, out_value = Some (in_value data), out_ttl = in_ttl data,
             out_db_index = in_db_index data, out_message = ''Key updated successfully''\<rparr>)"
proof (intro conjI impI)
  assume a: "create_key data w = (Inr out, w') \<or> update_key data w = (Inr out, w')"
  then show "out_key out = in_key data"
    and "out_value out = Some (in_value data)"
    and "out_ttl out = in_ttl data"
    and "out_db_index out = in_db_index data"
    by (auto simp: create_key_def create_key_try_def update_key_def update_key_try_def
        except_Exception_def split: prod.splits sum.splits option.splits if_splits)
  from a show "\<forall>p\<in>set (new_calls w w'). \<not> is_TTL (fst p)"
  proof
    assume "create_key data w = (Inr out, w')"
    from create_key_Inr [OF this] write_calls show ?thesis by blast
  next
    assume "update_key data w = (Inr out, w')"
    from update_key_Inr [OF this] write_calls show ?thesis by blast
  qed
next
  assume a: "cache_inv w \<and> script w = [] \<and> KeyValueInput_valid data \<and>
    store w (in_db_index data) (in_key data) = None"
  from write_answered [of w data] a obtain r w1 w2 w3 where
    "get_redis_connection (in_db_index data) 3 15 w = (Inr (Some r), w1)"
    "r_exists r (in_key data) w1 = (Inr 0, w2)"
    "set_with_optional_ttl r data w2 = (Inr True, w3)"
    by auto
  then show "fst (create_key data w) =
        Inr \<lparr>out_key = in_key data, out_value = Some (in_value data), out_ttl = in_ttl data,
             out_db_index = in_db_index data, out_message = ''Key created successfully''\<rparr>"
    by (simp add: create_key_def create_key_try_def except_Exception_def)
next
  assume a: "cache_inv w \<and> script w = [] \<and> KeyValueInput_valid data \<and>
    store w (in_db_index data) (in_key data) \<noteq> None"
  from write_answered [of w data] a obtain r w1 w2 w3 where
    "get_redis_connection (in_db_index data) 3 15 w = (Inr (Some r), w1)"
    "r_exists r (in_key data) w1 = (Inr 1, w2)"
    "set_with_optional_ttl r data w2 = (Inr True, w3)"
    by auto
  then show "fst (update_key data w) =
        Inr \<lparr>out_key = in_key data, out_value = Some (in_value data), out_ttl = in_ttl data,
             out_db_index = in_db_index data, out_message = ''Key updated successfully''\<rparr>"
    by (simp add: update_key_def update_key_try_def except_Exception_def)
qed

text \<open>Both handlers on concrete states. Creating the key \<open>a\<close> with 30 seconds to live on a
  fresh process: the answer carries \<open>Some 30\<close>, the commands are one \<^verbatim>\<open>EXISTS\<close> and one
  \<^verbatim>\<open>SET\<close>. Updating it afterwards without a ttl: the answer carries \<open>None\<close>, the
  commands are a ping, one \<^verbatim>\<open>EXISTS\<close> and one \<^verbatim>\<open>SET\<close>, while the server would report
  \<open>-1\<close> for the key.\<close>

theorem create_update_echo_request_witness:
  "cache_inv world0 \<and> script world0 = [] \<and> KeyValueInput_valid input_a_ttl \<and>
   store world0 0 ''a'' = None \<and>
   create_key input_a_ttl world0
     = (Inr \<lparr>out_key = ''a'', out_value = Some ''0'', out_ttl = Some 30, out_db_index = 0,
             out_message = ''Key created successfully''\<rparr>, world_ttl) \<and>
   new_calls world0 world_ttl
     = [(EXISTS handle0 ''a'', Answer True), (SET handle0 ''a'' ''0'' (Some 30), Answer True)] \<and>
   cache_inv world_ttl \<and> script world_ttl = [] \<and> KeyValueInput_valid input_a \<and>
   store world_ttl 0 ''a'' = Some (''0'', Some 30) \<and>
   update_key input_a world_ttl
     = (Inr \<lparr>out_key = ''a'', out_value = Some ''1'', out_ttl = None, out_db_index = 0,
             out_message = ''Key updated successfully''\<rparr>, snd (update_key input_a world_ttl)) \<and>
   new_calls world_ttl (snd (update_key input_a world_ttl))
     = [(PING handle0, Answer True), (EXISTS handle0 ''a'', Answer True),
        (SET handle0 ''a'' ''1'' None, Answer True)] \<and>
   fst (r_ttl handle0 ''a'' (snd (update_key input_a world_ttl))) = Inr (- 1) \<and>
   \<not> is_TTL (PING handle0) \<and> \<not> is_TTL (EXISTS handle0 ''a'') \<and>
   \<not> is_TTL (SET handle0 ''a'' ''1'' None)"
proof -
  have i0: "cache_inv world0" "script world0 = []" "store world0 0 ''a'' = None"
    by (simp_all add: cache_inv_def world0_def)
  have v1: "KeyValueInput_valid input_a_ttl" "KeyValueInput_valid input_a"
    by (simp_all add: KeyValueInput_valid_def input_a_ttl_def input_a_def)
  have d1: "in_db_index input_a_ttl = 0" "in_key input_a_ttl = ''a''" "in_value input_a_ttl = ''0''"
    "in_ttl input_a_ttl = Some 30"
    by (simp_all add: input_a_ttl_def)
  have d2: "in_db_index input_a = 0" "in_key input_a = ''a''" "in_value input_a = ''1''"
    "in_ttl input_a = None"
    by (simp_all add: input_a_def)
  have i1: "cache_inv world_ttl" "script world_ttl = []"
    "store world_ttl 0 ''a'' = Some (''0'', Some 30)"
    by (simp_all add: world_ttl_eq cache_inv_def handle0_def)
  have s1: "snd (create_key input_a_ttl world0) = world_ttl" by (simp add: world_ttl_def)
  have c1: "new_calls world0 world_ttl
     = [(EXISTS handle0 ''a'', Answer True), (SET handle0 ''a'' ''0'' (Some 30), Answer True)]"
    by (simp add: world_ttl_eq new_calls_def world0_def)
  have c2: "new_calls world_ttl (snd (update_key input_a world_ttl))
     = [(PING handle0, Answer True), (EXISTS handle0 ''a'', Answer True),
        (SET handle0 ''a'' ''1'' None, Answer True)]"
    by (simp add: world_ttl_eq new_calls_def update_key_def update_key_try_def input_a_def
        handle0_def eval_defs)
  have t2: "fst (r_ttl handle0 ''a'' (snd (update_key input_a world_ttl))) = Inr (- 1)"
    by (simp add: world_ttl_eq update_key_def update_key_try_def input_a_def handle0_def eval_defs)
  note A = create_update_echo_request [of input_a_ttl world0]
  note B = create_update_echo_request [of input_a world_ttl]
  from A i0 v1 d1 have 1: "fst (create_key input_a_ttl world0)
     = Inr \<lparr>out_key = ''a'', out_value = Some ''0'', out_ttl = Some 30, out_db_index = 0,
             out_message = ''Key created successfully''\<rparr>"
    by simp
  from B i1 v1 d2 have 2: "fst (update_key input_a world_ttl)
     = Inr \<lparr>out_key = ''a'', out_value = Some ''1'', out_ttl = None, out_db_index = 0,
             out_message = ''Key updated successfully''\<rparr>"
    by simp
  from 1 s1 have 3: "create_key input_a_ttl world0
     = (Inr \<lparr>out_key = ''a'', out_value = Some ''0'', out_ttl = Some 30, out_db_index = 0,
             out_message = ''Key created successfully''\<rparr>, world_ttl)"
    by (simp add: prod_eq_iff)
  from 2 have 4: "update_key input_a world_ttl
     = (Inr \<lparr>out_key = ''a'', out_value = Some ''1'', out_ttl = None, out_db_index = 0,
             out_message = ''Key updated successfully''\<rparr>, snd (update_key input_a world_ttl))"
    by (simp add: prod_eq_iff)
  from i0 v1 3 c1 i1 4 c2 t2 show ?thesis by simp
qed

end
